theory Spec2Isabelle
  imports Main "HOL-Library.Word" "HOL-Library.Sublist"
begin

unbundle bit_operations_syntax

section \<open>The digest primitive: SHA-256 with hexadecimal output\<close>

text \<open>
  Every digest of the program is
  \<^verbatim>\<open>createHash('sha256').update(text).digest('hex')\<close>.
  The hash is written out over 32-bit words so that a digest can be computed and two
  digests compared. A string is a list of bytes (the UTF-8 bytes that \<^verbatim>\<open>update\<close>
  feeds to the hash).
\<close>

type_synonym w32 = "32 word"

definition rotr :: "nat \<Rightarrow> w32 \<Rightarrow> w32" where
  "rotr n x = word_rotr n x"

definition ch :: "w32 \<Rightarrow> w32 \<Rightarrow> w32 \<Rightarrow> w32" where
  "ch x y z = xor (and x y) (and (not x) z)"

definition maj :: "w32 \<Rightarrow> w32 \<Rightarrow> w32 \<Rightarrow> w32" where
  "maj x y z = xor (xor (and x y) (and x z)) (and y z)"

definition big_sigma0 :: "w32 \<Rightarrow> w32" where
  "big_sigma0 x = xor (xor (rotr 2 x) (rotr 13 x)) (rotr 22 x)"

definition big_sigma1 :: "w32 \<Rightarrow> w32" where
  "big_sigma1 x = xor (xor (rotr 6 x) (rotr 11 x)) (rotr 25 x)"

definition small_sigma0 :: "w32 \<Rightarrow> w32" where
  "small_sigma0 x = xor (xor (rotr 7 x) (rotr 18 x)) (drop_bit 3 x)"

definition small_sigma1 :: "w32 \<Rightarrow> w32" where
  "small_sigma1 x = xor (xor (rotr 17 x) (rotr 19 x)) (drop_bit 10 x)"

text \<open>The sixty-four round constants and the initial hash value, in decimal.\<close>

definition round_constants :: "w32 list" where
  "round_constants =
    [
     1116352408, 1899447441, 3049323471, 3921009573, 961987163, 1508970993,
     2453635748, 2870763221, 3624381080, 310598401, 607225278, 1426881987,
     1925078388, 2162078206, 2614888103, 3248222580, 3835390401, 4022224774,
     264347078, 604807628, 770255983, 1249150122, 1555081692, 1996064986,
     2554220882, 2821834349, 2952996808, 3210313671, 3336571891, 3584528711,
     113926993, 338241895, 666307205, 773529912, 1294757372, 1396182291,
     1695183700, 1986661051, 2177026350, 2456956037, 2730485921, 2820302411,
     3259730800, 3345764771, 3516065817, 3600352804, 4094571909, 275423344,
     430227734, 506948616, 659060556, 883997877, 958139571, 1322822218,
     1537002063, 1747873779, 1955562222, 2024104815, 2227730452, 2361852424,
     2428436474, 2756734187, 3204031479, 3329325298
    ]"

definition initial_hash :: "w32 list" where
  "initial_hash =
    [
     1779033703, 3144134277, 1013904242, 2773480762,
     1359893119, 2600822924, 528734635, 1541459225
    ]"

text \<open>One round on the eight working variables, with round constant \<open>k\<close> and
  schedule word \<open>w\<close>.\<close>

fun sha_round :: "w32 list \<Rightarrow> w32 \<Rightarrow> w32 \<Rightarrow> w32 list" where
  "sha_round [a, b, c, d, e, f, g, h] k w =
     (let t1 = h + big_sigma1 e + ch e f g + k + w;
          t2 = big_sigma0 a + maj a b c
      in [t1 + t2, a, b, c, d + t1, e, f, g])"
| "sha_round s k w = s"

text \<open>The message schedule is kept as a window of the last sixteen words: the head is
  the word of the current round, and the word sixteen rounds ahead is appended.\<close>

definition next_word :: "w32 list \<Rightarrow> w32" where
  "next_word ws = small_sigma1 (ws ! 14) + ws ! 9 + small_sigma0 (ws ! 1) + ws ! 0"

fun sha_rounds :: "w32 list \<Rightarrow> w32 list \<Rightarrow> w32 list \<Rightarrow> w32 list" where
  "sha_rounds [] ws s = s"
| "sha_rounds (k # ks) ws s = sha_rounds ks (tl ws @ [next_word ws]) (sha_round s k (hd ws))"

definition compress :: "w32 list \<Rightarrow> w32 list \<Rightarrow> w32 list" where
  "compress s ws = map2 (+) s (sha_rounds round_constants ws s)"

fun be_words :: "nat list \<Rightarrow> w32 list" where
  "be_words (a # b # c # d # bs) =
     (push_bit 24 (of_nat a) + push_bit 16 (of_nat b) + push_bit 8 (of_nat c) + of_nat d)
       # be_words bs"
| "be_words bs = []"

fun sha_blocks :: "w32 list \<Rightarrow> w32 list \<Rightarrow> w32 list" where
  "sha_blocks s ws =
     (if length ws < 16 then s else sha_blocks (compress s (take 16 ws)) (drop 16 ws))"

declare sha_blocks.simps [simp del]

definition be_bytes64 :: "nat \<Rightarrow> nat list" where
  "be_bytes64 n =
     map (\<lambda>k. unat (and (drop_bit k (of_nat n :: 64 word)) 255)) [56, 48, 40, 32, 24, 16, 8, 0]"

definition sha_pad :: "nat list \<Rightarrow> nat list" where
  "sha_pad bs =
     bs @ [128] @ replicate ((119 - length bs mod 64) mod 64) 0 @ be_bytes64 (8 * length bs)"

definition hex_digit :: "nat \<Rightarrow> char" where
  "hex_digit n = ''0123456789abcdef'' ! (n mod 16)"

definition hex32 :: "w32 \<Rightarrow> string" where
  "hex32 w = map (\<lambda>k. hex_digit (unat (and (drop_bit k w) 15))) [28, 24, 20, 16, 12, 8, 4, 0]"

definition sha256_hex :: "string \<Rightarrow> string" where
  "sha256_hex s = concat (map hex32 (sha_blocks initial_hash (be_words (sha_pad (map of_char s)))))"

text \<open>The hexadecimal digest always has 64 characters.\<close>

lemma length_sha_round: "length s = 8 \<Longrightarrow> length (sha_round s k w) = 8"
proof -
  assume "length s = 8"
  then obtain a b c d e f g h where "s = [a, b, c, d, e, f, g, h]"
    by (auto simp: numeral_eq_Suc length_Suc_conv)
  then show ?thesis by (simp add: Let_def)
qed

lemma length_sha_rounds: "length s = 8 \<Longrightarrow> length (sha_rounds ks ws s) = 8"
  by (induction ks arbitrary: ws s) (simp_all add: length_sha_round)

lemma length_compress: "length s = 8 \<Longrightarrow> length (compress s ws) = 8"
  by (simp add: compress_def length_sha_rounds)

lemma length_sha_blocks: "length s = 8 \<Longrightarrow> length (sha_blocks s ws) = 8"
proof (induction s ws rule: sha_blocks.induct)
  case (1 s ws)
  show ?case
  proof (cases "length ws < 16")
    case True
    with "1.prems" show ?thesis by (simp add: sha_blocks.simps [of s ws])
  next
    case False
    with "1.IH" "1.prems" show ?thesis
      by (simp add: sha_blocks.simps [of s ws] length_compress)
  qed
qed

lemma length_hex32: "length (hex32 w) = 8"
  by (simp add: hex32_def)

lemma length_concat_hex32: "length (concat (map hex32 ws)) = 8 * length ws"
  by (induction ws) (simp_all add: length_hex32)

lemma length_sha256_hex: "length (sha256_hex s) = 64"
  by (simp add: sha256_hex_def length_concat_hex32 length_sha_blocks initial_hash_def)

section \<open>JavaScript values\<close>

text \<open>
  The values the program handles: change events, documents and audit records are trees of
  JavaScript values. An object is the list of its own enumerable string-keyed properties,
  in property order. A number is given by the text that \<^verbatim>\<open>String(v)\<close> returns for it
  (\<open>JNum ''30''\<close>, \<open>JNum ''1.5''\<close>, \<open>JNum ''1e+21''\<close>, \<open>JNum ''NaN''\<close>), which is all
  the program observes of a number besides its truth value. \<open>JInst s j ps\<close> is an instance
  of a class (a \<^verbatim>\<open>Date\<close>, an \<^verbatim>\<open>ObjectId\<close>), seen through what the program can observe
  of it: \<open>s\<close> is what \<^verbatim>\<open>String(v)\<close> returns, \<open>j\<close> is the string its \<^verbatim>\<open>toJSON()\<close>
  returns (\<open>None\<close> when the class has no such method), and \<open>ps\<close> are its own enumerable
  properties (none for a \<^verbatim>\<open>Date\<close>). A value is a finite tree: an object that contains
  itself is not a value of this type. A string is the list of its bytes in UTF-8.
\<close>

datatype jsval =
    JUndefined
  | JNull
  | JBool bool
  | JNum string
  | JStr string
  | JArr "jsval list"
  | JObj "(string \<times> jsval) list"
  | JInst string "string option" "(string \<times> jsval) list"

datatype jstype = TUndefined | TObject | TBoolean | TNumber | TString

fun typeof :: "jsval \<Rightarrow> jstype" where
  "typeof JUndefined = TUndefined"
| "typeof JNull = TObject"
| "typeof (JBool b) = TBoolean"
| "typeof (JNum n) = TNumber"
| "typeof (JStr s) = TString"
| "typeof (JArr xs) = TObject"
| "typeof (JObj ps) = TObject"
| "typeof (JInst s j ps) = TObject"

fun truthy :: "jsval \<Rightarrow> bool" where
  "truthy JUndefined = False"
| "truthy JNull = False"
| "truthy (JBool b) = b"
| "truthy (JNum n) = (n \<noteq> ''0'' \<and> n \<noteq> ''NaN'')"
| "truthy (JStr s) = (s \<noteq> [])"
| "truthy (JArr xs) = True"
| "truthy (JObj ps) = True"
| "truthy (JInst s j ps) = True"

definition digit_char :: "nat \<Rightarrow> char" where
  "digit_char d = ''0123456789'' ! (d mod 10)"

fun show_nat :: "nat \<Rightarrow> string" where
  "show_nat n = (if n < 10 then [digit_char n] else show_nat (n div 10) @ [digit_char (n mod 10)])"

declare show_nat.simps [simp del]

fun join_with :: "string \<Rightarrow> string list \<Rightarrow> string" where
  "join_with sep [] = []"
| "join_with sep [x] = x"
| "join_with sep (x # y # ys) = x @ sep @ join_with sep (y # ys)"

fun jsString :: "jsval \<Rightarrow> string" where
  "jsString JUndefined = ''undefined''"
| "jsString JNull = ''null''"
| "jsString (JBool b) = (if b then ''true'' else ''false'')"
| "jsString (JNum n) = n"
| "jsString (JStr s) = s"
| "jsString (JArr xs) =
     join_with '','' (map (\<lambda>x. if x = JUndefined \<or> x = JNull then [] else jsString x) xs)"
| "jsString (JObj ps) = ''[object Object]''"
| "jsString (JInst s j ps) = s"

definition index_keys :: "nat \<Rightarrow> string list" where
  "index_keys n = map show_nat [0..<n]"

fun own_entries :: "jsval \<Rightarrow> (string \<times> jsval) list" where
  "own_entries (JArr xs) = zip (index_keys (length xs)) xs"
| "own_entries (JObj ps) = ps"
| "own_entries (JInst s j ps) = ps"
| "own_entries (JStr s) = zip (index_keys (length s)) (map (\<lambda>c. JStr [c]) s)"
| "own_entries v = []"

lemma size_entry_value:
  "(k, v) \<in> set ps \<Longrightarrow> size v < Suc (size_list (size_prod (\<lambda>_. 0) size) ps)"
  by (induction ps) auto

lemma size_elem_value: "x \<in> set xs \<Longrightarrow> size x < Suc (size_list size xs)"
  by (induction xs) auto

lemma size_own_entries:
  "typeof obj = TObject \<Longrightarrow> (k, v) \<in> set (own_entries obj) \<Longrightarrow> size v < size obj"
proof (cases obj)
  case (JArr xs)
  assume "(k, v) \<in> set (own_entries obj)"
  with JArr have "v \<in> set xs" by (auto dest: set_zip_rightD)
  then have "size v < Suc (size_list size xs)" by (rule size_elem_value)
  with JArr show ?thesis by simp
qed (auto dest: size_entry_value)

definition json_escape :: "char \<Rightarrow> string" where
  "json_escape c =
     (if c = CHR 0x22 then [CHR 0x5C, CHR 0x22]
      else if c = CHR 0x5C then [CHR 0x5C, CHR 0x5C]
      else if c = CHR 0x08 then [CHR 0x5C, CHR ''b'']
      else if c = CHR 0x0C then [CHR 0x5C, CHR ''f'']
      else if c = CHR 0x0A then [CHR 0x5C, CHR ''n'']
      else if c = CHR 0x0D then [CHR 0x5C, CHR ''r'']
      else if c = CHR 0x09 then [CHR 0x5C, CHR ''t'']
      else if (of_char c :: nat) < 32
        then CHR 0x5C # ''u00'' @ [hex_digit (of_char c div 16), hex_digit (of_char c)]
      else [c])"

definition json_quote :: "string \<Rightarrow> string" where
  "json_quote s = CHR 0x22 # concat (map json_escape s) @ [CHR 0x22]"

function JSON_stringify :: "jsval \<Rightarrow> string option" where
  "JSON_stringify JUndefined = None"
| "JSON_stringify JNull = Some ''null''"
| "JSON_stringify (JBool b) = Some (if b then ''true'' else ''false'')"
| "JSON_stringify (JNum n) =
     Some (if n = ''NaN'' \<or> n = ''Infinity'' \<or> n = ''-Infinity'' then ''null'' else n)"
| "JSON_stringify (JStr s) = Some (json_quote s)"
| "JSON_stringify (JArr xs) =
     Some (''['' @ join_with '',''
        (map (\<lambda>x. case JSON_stringify x of None \<Rightarrow> ''null'' | Some t \<Rightarrow> t) xs) @ '']'')"
| "JSON_stringify (JObj ps) =
     Some (''{'' @ join_with '',''
        (concat (map (\<lambda>(k, v). case JSON_stringify v of None \<Rightarrow> []
                                 | Some t \<Rightarrow> [json_quote k @ '':'' @ t]) ps)) @ ''}'')"
| "JSON_stringify (JInst s (Some j) ps) = Some (json_quote j)"
| "JSON_stringify (JInst s None ps) =
     Some (''{'' @ join_with '',''
        (concat (map (\<lambda>(k, v). case JSON_stringify v of None \<Rightarrow> []
                                 | Some t \<Rightarrow> [json_quote k @ '':'' @ t]) ps)) @ ''}'')"
  by pat_completeness auto
termination
  by (relation "measure size") (auto dest: size_entry_value size_elem_value)

section \<open>The manager and its configuration\<close>

text \<open>
  The fields of a \<^verbatim>\<open>ChangeStreamManager\<close>: the tracking configuration and the sensitive
  field matchers given to the constructor, the merged options, and the mutable retry
  counter. The tracking configuration is the list of own properties of the configuration
  object, a collection name with the field names to keep. JavaScript numbers are integers
  here.
\<close>

datatype error = TypeError | MaxReconnectAttemptsReached

type_synonym tracking_config = "(string \<times> string list) list"

record manager =
  trackingConfig :: tracking_config
  sensitiveFields :: "string list"
  maxReconnectAttempts :: int
  reconnectDelay :: int
  maxObjectDepth :: int
  healthCheckInterval :: int
  reconnectAttempts :: int

subsection \<open>shouldTrack\<close>

text \<open>
  \<^verbatim>\<open>collectionName in this.trackingConfig\<close> and \<^verbatim>\<open>this.trackingConfig[collectionName]\<close>
  look a name up in the configuration object's own properties and then in what an object
  literal inherits from \<^verbatim>\<open>Object.prototype\<close>. The inherited members are functions,
  listed here with their \<^verbatim>\<open>length\<close>, and the accessor \<^verbatim>\<open>__proto__\<close>, whose value is
  an object with no \<^verbatim>\<open>length\<close>. None of them has an \<^verbatim>\<open>includes\<close> method, so calling
  \<^verbatim>\<open>fields.includes\<close> on one raises a \<^verbatim>\<open>TypeError\<close>.
\<close>

datatype proto_member = ProtoFunction nat | ProtoAccessor

definition Object_prototype :: "(string \<times> proto_member) list" where
  "Object_prototype =
     [(''constructor'', ProtoFunction 1),
      (''__defineGetter__'', ProtoFunction 2),
      (''__defineSetter__'', ProtoFunction 2),
      (''hasOwnProperty'', ProtoFunction 1),
      (''__lookupGetter__'', ProtoFunction 1),
      (''__lookupSetter__'', ProtoFunction 1),
      (''isPrototypeOf'', ProtoFunction 1),
      (''propertyIsEnumerable'', ProtoFunction 1),
      (''toString'', ProtoFunction 0),
      (''valueOf'', ProtoFunction 0),
      (''__proto__'', ProtoAccessor),
      (''toLocaleString'', ProtoFunction 0)]"

text \<open>
  \<^verbatim>\<open>
  if (Object.keys(this.trackingConfig).length === 0) return true;
  if (!(collectionName in this.trackingConfig)) return false;
  const fields = this.trackingConfig[collectionName];
  return fields.length === 0 || fields.includes(fieldName);
  \<close>
\<close>

definition shouldTrack :: "tracking_config \<Rightarrow> string \<Rightarrow> string \<Rightarrow> error + bool" where
  "shouldTrack T collectionName fieldName =
     (if T = [] then Inr True
      else case map_of T collectionName of
             Some tracked \<Rightarrow> Inr (tracked = [] \<or> fieldName \<in> set tracked)
           | None \<Rightarrow>
               (case map_of Object_prototype collectionName of
                  None \<Rightarrow> Inr False
                | Some (ProtoFunction n) \<Rightarrow> if n = 0 then Inr True else Inl TypeError
                | Some ProtoAccessor \<Rightarrow> Inl TypeError))"

subsection \<open>sanitizeAndHashSensitiveData\<close>

text \<open>
  \<^verbatim>\<open>key.toLowerCase().includes(field)\<close>: \<open>str_includes s t\<close> is \<^verbatim>\<open>s.includes(t)\<close>, and
  \<^verbatim>\<open>String.prototype.toLowerCase\<close>, with the case mapping of the language, is the
  parameter \<open>lower\<close>.
\<close>

definition str_includes :: "string \<Rightarrow> string \<Rightarrow> bool" where
  "str_includes s t = sublist t s"

definition is_sensitive :: "(string \<Rightarrow> string) \<Rightarrow> string list \<Rightarrow> string \<Rightarrow> bool" where
  "is_sensitive lower sens key = list_ex (\<lambda>field. str_includes (lower key) field) sens"

text \<open>
  \<^verbatim>\<open>
  if (!obj || typeof obj !== 'object' || ObjectId.isValid(obj)) return obj;
  const sanitized = { ...obj };
  for (const [key, value] of Object.entries(sanitized)) {
    if (this.sensitiveFields.some((field) => key.toLowerCase().includes(field))) {
      sanitized[key] = createHash('sha256').update(String(value)).digest('hex');
    } else if (typeof value === 'object') {
      sanitized[key] = this.sanitizeAndHashSensitiveData(value);
    }
  }
  return sanitized;
  \<close>
  \<^verbatim>\<open>ObjectId.isValid\<close> belongs to the database driver; it is the parameter \<open>isValid\<close>. The spread \<^verbatim>\<open>{ ...obj }\<close>
  builds a plain object from the own enumerable properties of \<open>obj\<close>, which for an array
  are its elements under their indices.
\<close>

function sanitizeAndHashSensitiveData ::
  "(jsval \<Rightarrow> bool) \<Rightarrow> (string \<Rightarrow> string) \<Rightarrow> string list \<Rightarrow> jsval \<Rightarrow> jsval" where
  "sanitizeAndHashSensitiveData isValid lower sens obj =
     (if \<not> truthy obj \<or> typeof obj \<noteq> TObject \<or> isValid obj then obj
      else JObj (map (\<lambda>(key, value).
                  if is_sensitive lower sens key then (key, JStr (sha256_hex (jsString value)))
                  else if typeof value = TObject
                    then (key, sanitizeAndHashSensitiveData isValid lower sens value)
                  else (key, value))
                (own_entries obj)))"
  by pat_completeness auto
termination
  by (relation "measure (\<lambda>(isValid, lower, sens, obj). size obj)")
     (auto dest: size_own_entries)

declare sanitizeAndHashSensitiveData.simps [simp del]

subsection \<open>limitObjectDepth and createChecksum\<close>

text \<open>
  \<^verbatim>\<open>
  if (!obj || typeof obj !== 'object' || currentDepth >= this.options.maxObjectDepth) {
    return obj;
  }
  if (Array.isArray(obj)) {
    return obj.map((item) => this.limitObjectDepth(item, currentDepth + 1));
  }
  return Object.keys(obj).reduce((acc, key) => {
    acc[key] = this.limitObjectDepth(obj[key], currentDepth + 1);
    return acc;
  }, {});
  \<close>
  The keys of an object are distinct, so the \<^verbatim>\<open>reduce\<close> builds one entry for each own
  enumerable property, in property order.
\<close>

function limitObjectDepth :: "int \<Rightarrow> jsval \<Rightarrow> nat \<Rightarrow> jsval" where
  "limitObjectDepth maxDepth obj currentDepth =
     (if \<not> truthy obj \<or> typeof obj \<noteq> TObject \<or> maxDepth \<le> int currentDepth then obj
      else case obj of
             JArr xs \<Rightarrow> JArr (map (\<lambda>item. limitObjectDepth maxDepth item (currentDepth + 1)) xs)
           | _ \<Rightarrow> JObj (map (\<lambda>(key, value).
                            (key, limitObjectDepth maxDepth value (currentDepth + 1)))
                          (own_entries obj)))"
  by pat_completeness auto
termination
  by (relation "measure (\<lambda>(maxDepth, obj, currentDepth). size obj)")
     (auto dest: size_own_entries size_elem_value size_entry_value)

declare limitObjectDepth.simps [simp del]

text \<open>
  \<^verbatim>\<open>createHash('sha256').update(JSON.stringify(this.limitObjectDepth(data))).digest('hex')\<close>;
  \<^verbatim>\<open>update\<close> raises a \<^verbatim>\<open>TypeError\<close> when \<^verbatim>\<open>JSON.stringify\<close> returns \<^verbatim>\<open>undefined\<close>.
\<close>

definition createChecksum :: "int \<Rightarrow> jsval \<Rightarrow> error + string" where
  "createChecksum maxDepth data =
     (case JSON_stringify (limitObjectDepth maxDepth data 0) of
        None \<Rightarrow> Inl TypeError
      | Some text \<Rightarrow> Inr (sha256_hex text))"

subsection \<open>filterTrackedFields\<close>

text \<open>
  \<^verbatim>\<open>Array.prototype.filter\<close> with a callback that may raise: the first key on which the
  callback raises ends the call.
\<close>

fun filter_entries ::
  "(string \<Rightarrow> error + bool) \<Rightarrow> (string \<times> jsval) list \<Rightarrow> error + (string \<times> jsval) list" where
  "filter_entries p [] = Inr []"
| "filter_entries p ((key, value) # rest) =
     (case p key of
        Inl e \<Rightarrow> Inl e
      | Inr keep \<Rightarrow>
          (case filter_entries p rest of
             Inl e \<Rightarrow> Inl e
           | Inr kept \<Rightarrow> Inr (if keep then (key, value) # kept else kept)))"

text \<open>
  \<^verbatim>\<open>
  if (!obj) return {};
  return Object.fromEntries(
    Object.entries(obj).filter(([key]) => this.shouldTrack(collectionName, key)));
  \<close>
\<close>

definition filterTrackedFields :: "tracking_config \<Rightarrow> jsval \<Rightarrow> string \<Rightarrow> error + jsval" where
  "filterTrackedFields T obj collectionName =
     (if \<not> truthy obj then Inr (JObj [])
      else case filter_entries (\<lambda>key. shouldTrack T collectionName key) (own_entries obj) of
             Inl e \<Rightarrow> Inl e
           | Inr kept \<Rightarrow> Inr (JObj kept))"

subsection \<open>processChange\<close>

text \<open>
  A change event, by the six properties that \<^verbatim>\<open>processChange\<close> destructures from it; a
  property the event does not carry is \<open>JUndefined\<close>.
\<close>

record change_event =
  ns :: jsval
  operationType :: jsval
  fullDocument :: jsval
  fullDocumentBeforeChange :: jsval
  documentKey :: jsval
  updateDescription :: jsval

text \<open>
  Reading a property, as in \<^verbatim>\<open>ns.coll\<close>: a \<^verbatim>\<open>TypeError\<close> on \<^verbatim>\<open>undefined\<close> and
  \<^verbatim>\<open>null\<close>, otherwise the own property of that name, or \<^verbatim>\<open>undefined\<close>.
\<close>

definition get_prop :: "jsval \<Rightarrow> string \<Rightarrow> error + jsval" where
  "get_prop v key =
     (if v = JUndefined \<or> v = JNull then Inl TypeError
      else Inr (case map_of (own_entries v) key of None \<Rightarrow> JUndefined | Some x \<Rightarrow> x))"

text \<open>\<^verbatim>\<open>auditLog.checksum = this.createChecksum(auditLog)\<close>\<close>

definition withChecksum :: "int \<Rightarrow> (string \<times> jsval) list \<Rightarrow> error + jsval option" where
  "withChecksum maxDepth auditLog =
     (case createChecksum maxDepth (JObj auditLog) of
        Inl e \<Rightarrow> Inl e
      | Inr digest \<Rightarrow> Inr (Some (JObj (auditLog @ [(''checksum'', JStr digest)]))))"

text \<open>
  The first part of \<^verbatim>\<open>processChange\<close>, up to the assignment of the checksum: the result
  is the record handed to the audit sink, \<open>None\<close> when the event is rejected, or the error
  raised. \<open>now\<close> is the \<^verbatim>\<open>new Date()\<close> of the timestamp. A collection name that is not a
  string reaches \<^verbatim>\<open>shouldTrack\<close> as the property key that \<^verbatim>\<open>in\<close> makes of it.
  \<^verbatim>\<open>
  const { ns, operationType, fullDocument, fullDocumentBeforeChange, documentKey,
          updateDescription } = change;
  const collectionName = ns.coll;
  if (collectionName === 'audit_logs') return;
  const auditLog = { timestamp: new Date(), operationType, collectionName, documentKey,
                     updateDescription: updateDescription || null };
  switch (operationType) {
    case 'insert':
      auditLog.newValue = this.filterTrackedFields(fullDocument, collectionName); break;
    case 'update':
      auditLog.oldValue = this.filterTrackedFields(fullDocumentBeforeChange, collectionName);
      auditLog.newValue = this.filterTrackedFields(fullDocument, collectionName); break;
    case 'delete':
      auditLog.oldValue = this.filterTrackedFields(fullDocumentBeforeChange, collectionName);
      break;
    default: return;
  }
  auditLog.checksum = this.createChecksum(auditLog);
  \<close>
\<close>

definition buildAuditLog :: "manager \<Rightarrow> jsval \<Rightarrow> change_event \<Rightarrow> error + jsval option" where
  "buildAuditLog m now change =
     (case get_prop (ns change) ''coll'' of
        Inl e \<Rightarrow> Inl e
      | Inr collectionName \<Rightarrow>
          if collectionName = JStr ''audit_logs'' then Inr None
          else
            let auditLog =
                  [(''timestamp'', now),
                   (''operationType'', operationType change),
                   (''collectionName'', collectionName),
                   (''documentKey'', documentKey change),
                   (''updateDescription'',
                      if truthy (updateDescription change) then updateDescription change
                      else JNull)];
                coll = jsString collectionName
            in if operationType change = JStr ''insert'' then
                 (case filterTrackedFields (trackingConfig m) (fullDocument change) coll of
                    Inl e \<Rightarrow> Inl e
                  | Inr newValue \<Rightarrow>
                      withChecksum (maxObjectDepth m) (auditLog @ [(''newValue'', newValue)]))
               else if operationType change = JStr ''update'' then
                 (case filterTrackedFields (trackingConfig m)
                         (fullDocumentBeforeChange change) coll of
                    Inl e \<Rightarrow> Inl e
                  | Inr oldValue \<Rightarrow>
                      (case filterTrackedFields (trackingConfig m) (fullDocument change) coll of
                         Inl e \<Rightarrow> Inl e
                       | Inr newValue \<Rightarrow>
                           withChecksum (maxObjectDepth m)
                             (auditLog @ [(''oldValue'', oldValue), (''newValue'', newValue)])))
               else if operationType change = JStr ''delete'' then
                 (case filterTrackedFields (trackingConfig m)
                         (fullDocumentBeforeChange change) coll of
                    Inl e \<Rightarrow> Inl e
                  | Inr oldValue \<Rightarrow>
                      withChecksum (maxObjectDepth m) (auditLog @ [(''oldValue'', oldValue)]))
               else Inr None)"

text \<open>
  The audit log schema of \<^verbatim>\<open>initializeAuditLogModel\<close> gives \<^verbatim>\<open>oldValue\<close> and
  \<^verbatim>\<open>newValue\<close> the setter
  \<^verbatim>\<open>set: (value) => this.sanitizeAndHashSensitiveData(value)\<close>, which runs when
  \<^verbatim>\<open>auditLogModel.create(auditLog)\<close> takes the record. \<open>auditLogSchema_set\<close> is the
  record with the setters of the schema applied, every other value and the order of the
  keys as in the record. It is not the layout of the document in the database: there the
  sink puts the paths in the order of its schema, leaves out an empty object, and adds
  fields of its own (\<^verbatim>\<open>_id\<close>, \<^verbatim>\<open>createdAt\<close>, \<^verbatim>\<open>updatedAt\<close>).
\<close>

definition auditLogSchema_set ::
  "(jsval \<Rightarrow> bool) \<Rightarrow> (string \<Rightarrow> string) \<Rightarrow> string list \<Rightarrow> jsval \<Rightarrow> jsval" where
  "auditLogSchema_set isValid lower sens doc =
     JObj (map (\<lambda>(key, value).
             if key = ''oldValue'' \<or> key = ''newValue''
               then (key, sanitizeAndHashSensitiveData isValid lower sens value)
             else (key, value))
           (own_entries doc))"

text \<open>
  \<^verbatim>\<open>processChange\<close> on the records that the sink has taken, each with the values that the
  setters of the schema made of it: \<open>accepts\<close> tells whether the sink takes the record;
  when it does not, the error is caught and logged and the record is dropped.
  \<^verbatim>\<open>
  try { await this.auditLogModel?.create(auditLog); ... }
  catch (error) { console.error('Error saving audit log:', error); }
  \<close>
\<close>

definition processChange ::
  "(jsval \<Rightarrow> bool) \<Rightarrow> (string \<Rightarrow> string) \<Rightarrow> (jsval \<Rightarrow> bool) \<Rightarrow> manager \<Rightarrow> jsval
     \<Rightarrow> jsval list \<Rightarrow> change_event \<Rightarrow> error + jsval list" where
  "processChange isValid lower accepts m now audit_logs change =
     (case buildAuditLog m now change of
        Inl e \<Rightarrow> Inl e
      | Inr None \<Rightarrow> Inr audit_logs
      | Inr (Some auditLog) \<Rightarrow>
          Inr (if accepts auditLog
               then audit_logs @ [auditLogSchema_set isValid lower (sensitiveFields m) auditLog]
               else audit_logs))"

subsection \<open>connectDB and initialize\<close>

text \<open>
  What the manager does to its surroundings, in order. \<open>connects k\<close> tells whether the
  \<open>k\<close>-th call of \<^verbatim>\<open>mongoose.connect\<close> succeeds.
  \<^verbatim>\<open>
  try {
    await mongoose.connect(this.mongoUrl, { dbName: this.dbName, ...options });
    this.reconnectAttempts = 0;
  } catch (error) {
    if (++this.reconnectAttempts >= this.options.maxReconnectAttempts) {
      throw new Error(`Max reconnection attempts (...) reached`);
    }
    await new Promise((resolve) => setTimeout(resolve, this.options.reconnectDelay));
    return this.connectDB();
  }
  \<close>
\<close>

datatype effect =
    Connect nat | Wait int | InitializeAuditLogModel | StartChangeStream | SetupEventListeners

function connectDB ::
  "(nat \<Rightarrow> bool) \<Rightarrow> nat \<Rightarrow> manager \<Rightarrow> (error + unit) \<times> manager \<times> effect list" where
  "connectDB connects k m =
     (if connects k then (Inr (), m\<lparr>reconnectAttempts := 0\<rparr>, [Connect k])
      else
        let m' = m\<lparr>reconnectAttempts := reconnectAttempts m + 1\<rparr>
        in if maxReconnectAttempts m' \<le> reconnectAttempts m'
           then (Inl MaxReconnectAttemptsReached, m', [Connect k])
           else case connectDB connects (Suc k) m' of
                  (r, m'', effects) \<Rightarrow> (r, m'', Connect k # Wait (reconnectDelay m') # effects))"
  by pat_completeness auto
termination
  by (relation "measure (\<lambda>(connects, k, m). nat (maxReconnectAttempts m - reconnectAttempts m))")
     auto

declare connectDB.simps [simp del]

text \<open>
  \<^verbatim>\<open>
  await this.connectDB();
  this.initializeAuditLogModel();
  await this.startChangeStream();
  this.setupEventListeners();
  \<close>
\<close>

definition initialize ::
  "(nat \<Rightarrow> bool) \<Rightarrow> manager \<Rightarrow> (error + unit) \<times> manager \<times> effect list" where
  "initialize connects m =
     (case connectDB connects 0 m of
        (Inl e, m', effects) \<Rightarrow> (Inl e, m', effects)
      | (Inr u, m', effects) \<Rightarrow>
          (Inr (), m', effects @ [InitializeAuditLogModel, StartChangeStream, SetupEventListeners]))"

section \<open>Field tracking\<close>


text \<open>
  For a collection whose name is not the name of a member of \<^verbatim>\<open>Object.prototype\<close>,
  \<^verbatim>\<open>shouldTrack\<close> is the membership rule of the tracking configuration.
\<close>

lemma shouldTrack_own_names:
  "map_of Object_prototype c = None \<Longrightarrow>
   shouldTrack T c f =
     Inr (T = [] \<or> (\<exists>tracked. map_of T c = Some tracked \<and> (tracked = [] \<or> f \<in> set tracked)))"
  by (auto simp: shouldTrack_def split: option.splits)

text \<open>
  C5. The claim: \<^verbatim>\<open>shouldTrack(c, f)\<close> is true if and only if the tracking configuration
  is empty, or \<open>c\<close> is one of its keys and the field list of \<open>c\<close> is empty or contains
  \<open>f\<close>. The code tests \<^verbatim>\<open>collectionName in this.trackingConfig\<close>, which also holds of
  the names a configuration object inherits. With the configuration
  \<^verbatim>\<open>{users: ['name', 'email']}\<close>, the collection \<^verbatim>\<open>toString\<close> is not a key, yet
  \<^verbatim>\<open>fields\<close> is then the inherited function, whose \<^verbatim>\<open>length\<close> is 0, and the call
  returns true.
\<close>

theorem shouldTrack_inherited_name:
  "shouldTrack [(''users'', [''name'', ''email''])] ''toString'' ''name'' = Inr True"
  by (simp add: shouldTrack_def Object_prototype_def)




section \<open>Rejected events\<close>

text \<open>
  An \<^verbatim>\<open>invalidate\<close> event, which the change stream of a database emits when the database
  is dropped: it carries an operation kind and no namespace.
\<close>

definition invalidate_event :: change_event where
  "invalidate_event =
     \<lparr>ns = JUndefined, operationType = JStr ''invalidate'', fullDocument = JUndefined,
      fullDocumentBeforeChange = JUndefined, documentKey = JUndefined,
      updateDescription = JUndefined\<rparr>"

text \<open>
  An event that carries a namespace is rejected without a record and without an error when
  its collection is \<^verbatim>\<open>audit_logs\<close> or its operation kind is none of insert, update and
  delete.
\<close>

lemma processChange_rejects_silently:
  assumes "get_prop (ns change) ''coll'' = Inr coll"
    and "coll = JStr ''audit_logs'' \<or>
         operationType change \<notin> {JStr ''insert'', JStr ''update'', JStr ''delete''}"
  shows "processChange isValid lower accepts m now audit_logs change = Inr audit_logs"
  using assms by (auto simp: processChange_def buildAuditLog_def Let_def)

text \<open>
  C4. The claim: an event for the collection \<^verbatim>\<open>audit_logs\<close>, and an event whose operation
  kind is none of insert, update and delete, stores no record and raises no error. The code
  reads \<^verbatim>\<open>ns.coll\<close> before it looks at the operation kind, so an event of another kind
  that has no namespace, as an \<^verbatim>\<open>invalidate\<close> event, raises a \<^verbatim>\<open>TypeError\<close>, whatever
  the manager, the sink and the stored records are.
\<close>

theorem processChange_invalidate_raises:
  "processChange isValid lower accepts m now audit_logs invalidate_event = Inl TypeError"
  by (simp add: processChange_def buildAuditLog_def get_prop_def invalidate_event_def)

section \<open>Depth limiting\<close>

text \<open>Once the depth has reached the bound, a value is returned as it is.\<close>

lemma limitObjectDepth_at_bound:
  "maxDepth \<le> int d \<Longrightarrow> limitObjectDepth maxDepth v d = v"
  by (simp add: limitObjectDepth.simps [of maxDepth v d])

text \<open>
  A value is plain when it is built from primitives, arrays and plain objects only, with no
  instance of a class in it. On a plain value the depth limiting changes nothing, whatever the
  bound and the depth.
\<close>

function plain :: "jsval \<Rightarrow> bool" where
  "plain (JInst s j ps) = False"
| "plain (JArr xs) = list_all plain xs"
| "plain (JObj ps) = list_all (\<lambda>(key, value). plain value) ps"
| "plain JUndefined = True"
| "plain JNull = True"
| "plain (JBool b) = True"
| "plain (JNum n) = True"
| "plain (JStr s) = True"
  by pat_completeness auto
termination
  by (relation "measure size") (auto dest: size_entry_value size_elem_value)

lemma limitObjectDepth_plain:
  "plain v \<Longrightarrow> limitObjectDepth maxDepth v d = v"
proof (induction maxDepth v d rule: limitObjectDepth.induct)
  case (1 maxDepth obj d)
  show ?case
  proof (cases "\<not> truthy obj \<or> typeof obj \<noteq> TObject \<or> maxDepth \<le> int d")
    case True
    then show ?thesis by (simp add: limitObjectDepth.simps [of maxDepth obj d])
  next
    case False
    show ?thesis
    proof (cases obj)
      case (JArr xs)
      have "map (\<lambda>item. limitObjectDepth maxDepth item (d + 1)) xs = xs"
      proof (rule map_idI)
        fix item assume "item \<in> set xs"
        with "1.IH"(6) [OF False JArr] "1.prems" JArr
        show "limitObjectDepth maxDepth item (d + 1) = item"
          by (simp add: list_all_iff)
      qed
      with False JArr show ?thesis
        by (simp add: limitObjectDepth.simps [of maxDepth "JArr xs" d])
    next
      case (JObj ps)
      have "map (\<lambda>(key, value). (key, limitObjectDepth maxDepth value (d + 1))) ps = ps"
      proof (rule map_idI)
        fix kv assume kv: "kv \<in> set ps"
        obtain k v where eq: "kv = (k, v)" by (cases kv)
        from kv JObj have mem: "kv \<in> set (own_entries obj)" by simp
        from "1.prems" JObj kv eq have pv: "plain v" by (auto simp: list_all_iff)
        have "limitObjectDepth maxDepth v (d + 1) = v"
          by (rule "1.IH"(7) [OF False JObj mem eq [symmetric] pv])
        with eq
        show "(case kv of (key, value) \<Rightarrow> (key, limitObjectDepth maxDepth value (d + 1))) = kv"
          by simp
      qed
      with False JObj show ?thesis
        by (simp add: limitObjectDepth.simps [of maxDepth "JObj ps" d])
    next
      case (JInst s j ps)
      with "1.prems" show ?thesis by simp
    qed (use False in auto)
  qed
qed

text \<open>
  C9. The claim: \<^verbatim>\<open>limitObjectDepth\<close> is total, returns a value unchanged once the bound
  is reached, and above the bound reproduces the structure with equal content. The code
  rebuilds every object above the bound from \<^verbatim>\<open>Object.keys\<close>, and a \<^verbatim>\<open>Date\<close> has no
  own enumerable property: with the default bound 10, the timestamp of an audit record
  becomes the empty object.
\<close>

theorem limitObjectDepth_Date:
  "limitObjectDepth 10
     (JObj [(''timestamp'',
        JInst ''Tue Nov 03 2026 11:20:00 GMT+0000'' (Some ''2026-11-03T11:20:00.000Z'') [])]) 0
   = JObj [(''timestamp'', JObj [])]"
  by (simp add: limitObjectDepth.simps)

section \<open>The audit record\<close>

text \<open>
  A field of a record: the value under a key, \<open>None\<close> when the record has no such key.
  \<open>built_record\<close> is the record that \<^verbatim>\<open>processChange\<close> built, and \<^verbatim>\<open>undefined\<close> when
  it built none.
\<close>

definition record_field :: "jsval \<Rightarrow> string \<Rightarrow> jsval option" where
  "record_field r key = map_of (own_entries r) key"

definition built_record :: "error + jsval option \<Rightarrow> jsval" where
  "built_record x = (case x of Inr (Some r) \<Rightarrow> r | _ \<Rightarrow> JUndefined)"

text \<open>
  \<^verbatim>\<open>toLowerCase\<close> on the strings of ASCII characters: such a string keeps its characters
  but for the letters A to Z, which become a to z. It stands for the parameter \<open>lower\<close> in
  the examples, whose keys are ASCII strings.
\<close>

definition ascii_lower :: "char \<Rightarrow> char" where
  "ascii_lower c =
     (if (65::nat) \<le> of_char c \<and> (of_char c :: nat) \<le> 90
      then char_of (of_char c + (32::nat)) else c)"

definition ascii_toLowerCase :: "string \<Rightarrow> string" where
  "ascii_toLowerCase s = map ascii_lower s"

text \<open>
  A manager with the default options that tracks every field and hashes
  \<^verbatim>\<open>password\<close>, a time stamp, and the event of inserting
  \<^verbatim>\<open>{_id: 1, name: 'Ann', password: 'p1'}\<close> into the collection \<^verbatim>\<open>users\<close>.
\<close>

definition example_manager :: manager where
  "example_manager =
     \<lparr>trackingConfig = [], sensitiveFields = [''password''],
      maxReconnectAttempts = 5, reconnectDelay = 5000, maxObjectDepth = 10,
      healthCheckInterval = 30000, reconnectAttempts = 0\<rparr>"

definition example_now :: jsval where
  "example_now =
     JInst ''Tue Nov 03 2026 11:20:00 GMT+0000 (Coordinated Universal Time)''
       (Some ''2026-11-03T11:20:00.000Z'') []"

definition insert_event :: change_event where
  "insert_event =
     \<lparr>ns = JObj [(''db'', JStr ''shop''), (''coll'', JStr ''users'')],
      operationType = JStr ''insert'',
      fullDocument =
        JObj [(''_id'', JNum ''1''), (''name'', JStr ''Ann''), (''password'', JStr ''p1'')],
      fullDocumentBeforeChange = JUndefined,
      documentKey = JObj [(''_id'', JNum ''1'')],
      updateDescription = JUndefined\<rparr>"

lemma limitObjectDepth_JObj: "\<exists>qs. limitObjectDepth maxDepth (JObj ps) d = JObj qs"
  by (simp add: limitObjectDepth.simps [of maxDepth "JObj ps" d])

text \<open>The checksum of an object never raises.\<close>

lemma createChecksum_JObj:
  "createChecksum maxDepth (JObj ps) =
     Inr (sha256_hex (the (JSON_stringify (limitObjectDepth maxDepth (JObj ps) 0))))"
proof -
  obtain qs where "limitObjectDepth maxDepth (JObj ps) 0 = JObj qs"
    using limitObjectDepth_JObj by blast
  then show ?thesis by (simp add: createChecksum_def)
qed

lemma withChecksum_JObj:
  "withChecksum maxDepth ps =
     Inr (Some (JObj (ps @ [(''checksum'',
        JStr (sha256_hex (the (JSON_stringify (limitObjectDepth maxDepth (JObj ps) 0)))))])))"
  by (simp add: withChecksum_def createChecksum_JObj)

lemma withChecksum_shape:
  "withChecksum maxDepth ps = Inr (Some r) \<Longrightarrow>
   \<exists>digest. r = JObj (ps @ [(''checksum'', JStr digest)])
     \<and> createChecksum maxDepth (JObj ps) = Inr digest"
  by (auto simp: withChecksum_def split: sum.splits)

lemma buildAuditLog_withChecksum:
  "buildAuditLog m now change = Inr (Some r) \<Longrightarrow>
   \<exists>ps. withChecksum (maxObjectDepth m) ps = Inr (Some r)"
  by (auto simp: buildAuditLog_def Let_def split: sum.splits if_splits)

text \<open>
  C7, as the code has it. In the record that \<^verbatim>\<open>processChange\<close> builds, an insert sets
  \<^verbatim>\<open>newValue\<close> and leaves \<^verbatim>\<open>oldValue\<close> absent, a delete sets \<^verbatim>\<open>oldValue\<close> and leaves
  \<^verbatim>\<open>newValue\<close> absent, and an update sets both, each to the filtered document. The key
  \<^verbatim>\<open>updateDescription\<close> is set for every kind of operation: to the update description of
  the event when the event carries one, and to \<^verbatim>\<open>null\<close> otherwise.
\<close>

theorem buildAuditLog_fields:
  assumes "buildAuditLog m now change = Inr (Some r)"
  shows "(operationType change = JStr ''insert'' \<longrightarrow>
            (\<exists>c nv. get_prop (ns change) ''coll'' = Inr c
               \<and> filterTrackedFields (trackingConfig m) (fullDocument change) (jsString c)
                   = Inr nv
               \<and> record_field r ''newValue'' = Some nv)
            \<and> record_field r ''oldValue'' = None)
       \<and> (operationType change = JStr ''delete'' \<longrightarrow>
            (\<exists>c ov. get_prop (ns change) ''coll'' = Inr c
               \<and> filterTrackedFields (trackingConfig m) (fullDocumentBeforeChange change)
                     (jsString c) = Inr ov
               \<and> record_field r ''oldValue'' = Some ov)
            \<and> record_field r ''newValue'' = None)
       \<and> (operationType change = JStr ''update'' \<longrightarrow>
            (\<exists>c ov nv. get_prop (ns change) ''coll'' = Inr c
               \<and> filterTrackedFields (trackingConfig m) (fullDocumentBeforeChange change)
                     (jsString c) = Inr ov
               \<and> filterTrackedFields (trackingConfig m) (fullDocument change) (jsString c)
                   = Inr nv
               \<and> record_field r ''oldValue'' = Some ov
               \<and> record_field r ''newValue'' = Some nv))
       \<and> record_field r ''updateDescription'' =
            Some (if truthy (updateDescription change) then updateDescription change else JNull)"
  using assms
  by (auto simp: buildAuditLog_def Let_def withChecksum_JObj record_field_def
           split: sum.splits if_splits)

text \<open>
  The event of an update that sets the name of the document to \<^verbatim>\<open>Anna\<close>, with its
  pre-image, and the event of deleting the document.
\<close>

definition update_event :: change_event where
  "update_event =
     \<lparr>ns = JObj [(''db'', JStr ''shop''), (''coll'', JStr ''users'')],
      operationType = JStr ''update'',
      fullDocument = JObj [(''_id'', JNum ''1''), (''name'', JStr ''Anna'')],
      fullDocumentBeforeChange = JObj [(''_id'', JNum ''1''), (''name'', JStr ''Ann'')],
      documentKey = JObj [(''_id'', JNum ''1'')],
      updateDescription =
        JObj [(''updatedFields'', JObj [(''name'', JStr ''Anna'')]),
              (''removedFields'', JArr [])]\<rparr>"

definition delete_event :: change_event where
  "delete_event =
     \<lparr>ns = JObj [(''db'', JStr ''shop''), (''coll'', JStr ''users'')],
      operationType = JStr ''delete'',
      fullDocument = JUndefined,
      fullDocumentBeforeChange = JObj [(''_id'', JNum ''1''), (''name'', JStr ''Anna'')],
      documentKey = JObj [(''_id'', JNum ''1'')],
      updateDescription = JUndefined\<rparr>"

text \<open>
  Each of the three events builds a record: the insert with the whole document as
  \<^verbatim>\<open>newValue\<close>, the update with both images and its update description, the delete with
  the pre-image as \<^verbatim>\<open>oldValue\<close>.
\<close>

theorem buildAuditLog_fields_witness:
  "buildAuditLog example_manager example_now insert_event
     = Inr (Some (built_record (buildAuditLog example_manager example_now insert_event)))
   \<and> record_field (built_record (buildAuditLog example_manager example_now insert_event))
        ''newValue''
      = Some (JObj [(''_id'', JNum ''1''), (''name'', JStr ''Ann''), (''password'', JStr ''p1'')])
   \<and> record_field (built_record (buildAuditLog example_manager example_now insert_event))
        ''updateDescription'' = Some JNull
   \<and> buildAuditLog example_manager example_now update_event
     = Inr (Some (built_record (buildAuditLog example_manager example_now update_event)))
   \<and> record_field (built_record (buildAuditLog example_manager example_now update_event))
        ''oldValue''
      = Some (JObj [(''_id'', JNum ''1''), (''name'', JStr ''Ann'')])
   \<and> record_field (built_record (buildAuditLog example_manager example_now update_event))
        ''newValue''
      = Some (JObj [(''_id'', JNum ''1''), (''name'', JStr ''Anna'')])
   \<and> record_field (built_record (buildAuditLog example_manager example_now update_event))
        ''updateDescription''
      = Some (JObj [(''updatedFields'', JObj [(''name'', JStr ''Anna'')]),
                    (''removedFields'', JArr [])])
   \<and> buildAuditLog example_manager example_now delete_event
     = Inr (Some (built_record (buildAuditLog example_manager example_now delete_event)))
   \<and> record_field (built_record (buildAuditLog example_manager example_now delete_event))
        ''oldValue''
      = Some (JObj [(''_id'', JNum ''1''), (''name'', JStr ''Anna'')])
   \<and> record_field (built_record (buildAuditLog example_manager example_now delete_event))
        ''newValue'' = None"
proof -
  have built: "buildAuditLog example_manager example_now insert_event
     = Inr (Some (built_record (buildAuditLog example_manager example_now insert_event)))"
    by (simp add: buildAuditLog_def Let_def withChecksum_JObj built_record_def
        example_manager_def insert_event_def get_prop_def filterTrackedFields_def shouldTrack_def)
  have built_u: "buildAuditLog example_manager example_now update_event
     = Inr (Some (built_record (buildAuditLog example_manager example_now update_event)))"
    by (simp add: buildAuditLog_def Let_def withChecksum_JObj built_record_def
        example_manager_def update_event_def get_prop_def filterTrackedFields_def shouldTrack_def)
  have built_d: "buildAuditLog example_manager example_now delete_event
     = Inr (Some (built_record (buildAuditLog example_manager example_now delete_event)))"
    by (simp add: buildAuditLog_def Let_def withChecksum_JObj built_record_def
        example_manager_def delete_event_def get_prop_def filterTrackedFields_def shouldTrack_def)
  have i: "record_field (built_record (buildAuditLog example_manager example_now insert_event))
        ''newValue''
      = Some (JObj [(''_id'', JNum ''1''), (''name'', JStr ''Ann''), (''password'', JStr ''p1'')])
    \<and> record_field (built_record (buildAuditLog example_manager example_now insert_event))
        ''updateDescription'' = Some JNull"
    using buildAuditLog_fields [OF built]
    by (simp add: insert_event_def example_manager_def get_prop_def filterTrackedFields_def
        shouldTrack_def)
  have u: "record_field (built_record (buildAuditLog example_manager example_now update_event))
        ''oldValue''
      = Some (JObj [(''_id'', JNum ''1''), (''name'', JStr ''Ann'')])
    \<and> record_field (built_record (buildAuditLog example_manager example_now update_event))
        ''newValue''
      = Some (JObj [(''_id'', JNum ''1''), (''name'', JStr ''Anna'')])
    \<and> record_field (built_record (buildAuditLog example_manager example_now update_event))
        ''updateDescription''
      = Some (JObj [(''updatedFields'', JObj [(''name'', JStr ''Anna'')]),
                    (''removedFields'', JArr [])])"
    using buildAuditLog_fields [OF built_u]
    by (simp add: update_event_def example_manager_def get_prop_def filterTrackedFields_def
        shouldTrack_def)
  have d: "record_field (built_record (buildAuditLog example_manager example_now delete_event))
        ''oldValue''
      = Some (JObj [(''_id'', JNum ''1''), (''name'', JStr ''Anna'')])
    \<and> record_field (built_record (buildAuditLog example_manager example_now delete_event))
        ''newValue'' = None"
    using buildAuditLog_fields [OF built_d]
    by (simp add: delete_event_def example_manager_def get_prop_def filterTrackedFields_def
        shouldTrack_def)
  from built built_u built_d i u d show ?thesis by simp
qed

text \<open>
  C7, as the claim states it: \<^verbatim>\<open>updateDescription\<close> is absent from the record of an
  insert, as \<^verbatim>\<open>oldValue\<close> is. The record of the insert event has no key \<^verbatim>\<open>oldValue\<close>, and
  it has the key \<^verbatim>\<open>updateDescription\<close>, with the value \<^verbatim>\<open>null\<close>.
\<close>

theorem updateDescription_null_on_insert:
  "record_field (built_record (buildAuditLog example_manager example_now insert_event))
     ''updateDescription'' = Some JNull
   \<and> record_field (built_record (buildAuditLog example_manager example_now insert_event))
     ''oldValue'' = None"
  by (simp add: buildAuditLog_def Let_def withChecksum_JObj record_field_def built_record_def
      example_manager_def insert_event_def get_prop_def filterTrackedFields_def shouldTrack_def)

section \<open>The checksum and the hashing of sensitive values\<close>

text \<open>
  The checksum that a record would have if it were the digest of the record's other
  fields with the values that the setters of the schema made of them, the hashed ones.
\<close>

definition recompute_checksum :: "int \<Rightarrow> jsval \<Rightarrow> error + string" where
  "recompute_checksum maxDepth doc =
     createChecksum maxDepth
       (JObj (filter (\<lambda>(key, value). key \<noteq> ''checksum'') (own_entries doc)))"

definition checksum_matches_stored :: "int \<Rightarrow> jsval \<Rightarrow> bool" where
  "checksum_matches_stored maxDepth doc =
     (case recompute_checksum maxDepth doc of
        Inr digest \<Rightarrow> record_field doc ''checksum'' = Some (JStr digest)
      | Inl e \<Rightarrow> False)"

text \<open>
  The records that the sink holds after the insert event, from an empty store and a sink
  that accepts.
\<close>

definition stored_example :: "jsval list" where
  "stored_example =
     (case processChange (\<lambda>v. False) ascii_toLowerCase (\<lambda>r. True) example_manager example_now [] insert_event of
        Inr docs \<Rightarrow> docs
      | Inl e \<Rightarrow> [])"

lemma digest_p1: "sha256_hex ''p1'' = ''f64551fcd6f07823cb87971cfb91446425da18286b3ab1ef935e0cbd7a69f68a''"
  by code_simp

lemma json_insert_record: \<open>JSON_stringify (limitObjectDepth 10 (JObj
   [(''timestamp'', example_now),
    (''operationType'', JStr ''insert''),
    (''collectionName'', JStr ''users''),
    (''documentKey'', JObj [(''_id'', JNum ''1'')]),
    (''updateDescription'', JNull),
    (''newValue'',
       JObj [(''_id'', JNum ''1''), (''name'', JStr ''Ann''), (''password'', JStr ''p1'')])]) 0)
  = Some ''{"timestamp":{},"operationType":"insert","collectionName":"users","documentKey":{"_id":1},"updateDescription":null,"newValue":{"_id":1,"name":"Ann","password":"p1"}}''\<close>
  by code_simp

lemma json_insert_record_hashed: \<open>JSON_stringify (limitObjectDepth 10 (JObj
   [(''timestamp'', example_now),
    (''operationType'', JStr ''insert''),
    (''collectionName'', JStr ''users''),
    (''documentKey'', JObj [(''_id'', JNum ''1'')]),
    (''updateDescription'', JNull),
    (''newValue'',
       JObj [(''_id'', JNum ''1''), (''name'', JStr ''Ann''), (''password'', JStr ''f64551fcd6f07823cb87971cfb91446425da18286b3ab1ef935e0cbd7a69f68a'')])]) 0)
  = Some ''{"timestamp":{},"operationType":"insert","collectionName":"users","documentKey":{"_id":1},"updateDescription":null,"newValue":{"_id":1,"name":"Ann","password":"f64551fcd6f07823cb87971cfb91446425da18286b3ab1ef935e0cbd7a69f68a"}}''\<close>
  by code_simp

lemma digest_insert_record: \<open>sha256_hex ''{"timestamp":{},"operationType":"insert","collectionName":"users","documentKey":{"_id":1},"updateDescription":null,"newValue":{"_id":1,"name":"Ann","password":"p1"}}'' = ''5a9f0710d029aa701d2c71aed051aa90aa15ed5c6d7d0c9335ff76046396b6a8''\<close>
  by code_simp

lemma digest_insert_record_hashed: \<open>sha256_hex ''{"timestamp":{},"operationType":"insert","collectionName":"users","documentKey":{"_id":1},"updateDescription":null,"newValue":{"_id":1,"name":"Ann","password":"f64551fcd6f07823cb87971cfb91446425da18286b3ab1ef935e0cbd7a69f68a"}}'' = ''139016e7a881c9a4f45a4072c68db56008396fbd6bf78fc55c2aaad16abed6b0''\<close>
  by code_simp

lemma stored_example_value:
  "stored_example = [JObj
    [(''timestamp'', example_now),
     (''operationType'', JStr ''insert''),
     (''collectionName'', JStr ''users''),
     (''documentKey'', JObj [(''_id'', JNum ''1'')]),
     (''updateDescription'', JNull),
     (''newValue'', JObj [(''_id'', JNum ''1''), (''name'', JStr ''Ann''),
        (''password'', JStr ''f64551fcd6f07823cb87971cfb91446425da18286b3ab1ef935e0cbd7a69f68a'')]),
     (''checksum'', JStr ''5a9f0710d029aa701d2c71aed051aa90aa15ed5c6d7d0c9335ff76046396b6a8'')]]"
  by (simp add: stored_example_def processChange_def buildAuditLog_def Let_def withChecksum_JObj
      example_manager_def insert_event_def get_prop_def filterTrackedFields_def shouldTrack_def
      auditLogSchema_set_def json_insert_record digest_insert_record
      sanitizeAndHashSensitiveData.simps is_sensitive_def str_includes_def ascii_toLowerCase_def
      ascii_lower_def sublist_code(3) digest_p1)

text \<open>
  C1, as the claim states it: the stored checksum is a digest over the filtered and hashed
  values. The record stored for the insert event holds the digest of the password, and a
  checksum that is the digest of the record with the password itself; the digest of the
  record as it is stored is another one.
\<close>

theorem checksum_of_unhashed_values:
  "map (\<lambda>doc. (record_field doc ''checksum'', recompute_checksum 10 doc)) stored_example
     = [(Some (JStr ''5a9f0710d029aa701d2c71aed051aa90aa15ed5c6d7d0c9335ff76046396b6a8''), Inr ''139016e7a881c9a4f45a4072c68db56008396fbd6bf78fc55c2aaad16abed6b0'')]
   \<and> map (checksum_matches_stored 10) stored_example = [False]"
  by (simp add: stored_example_value record_field_def recompute_checksum_def createChecksum_JObj
      json_insert_record_hashed digest_insert_record_hashed checksum_matches_stored_def)

text \<open>
  C1, as the code has it. The checksum of the record is computed over its entries as
  \<^verbatim>\<open>filterTrackedFields\<close> left them, before the record reaches the sink; the setters of the
  sink then hash the sensitive values of \<^verbatim>\<open>oldValue\<close> and \<^verbatim>\<open>newValue\<close>, and the checksum is
  stored as it was computed.
\<close>

theorem checksum_precedes_hashing:
  assumes "buildAuditLog m now change = Inr (Some r)" and "accepts r"
  shows "\<exists>entries digest.
      r = JObj (entries @ [(''checksum'', JStr digest)])
      \<and> createChecksum (maxObjectDepth m) (JObj entries) = Inr digest
      \<and> processChange isValid lower accepts m now audit_logs change =
          Inr (audit_logs @
            [JObj (map (\<lambda>(key, value).
                     if key = ''oldValue'' \<or> key = ''newValue''
                       then (key, sanitizeAndHashSensitiveData isValid lower (sensitiveFields m) value)
                     else (key, value)) entries
                   @ [(''checksum'', JStr digest)])])"
proof -
  from assms(1) obtain ps where "withChecksum (maxObjectDepth m) ps = Inr (Some r)"
    using buildAuditLog_withChecksum by blast
  then obtain digest where r: "r = JObj (ps @ [(''checksum'', JStr digest)])"
    and digest: "createChecksum (maxObjectDepth m) (JObj ps) = Inr digest"
    using withChecksum_shape by blast
  from assms r have "processChange isValid lower accepts m now audit_logs change =
          Inr (audit_logs @
            [JObj (map (\<lambda>(key, value).
                     if key = ''oldValue'' \<or> key = ''newValue''
                       then (key, sanitizeAndHashSensitiveData isValid lower (sensitiveFields m) value)
                     else (key, value)) ps
                   @ [(''checksum'', JStr digest)])])"
    by (simp add: processChange_def auditLogSchema_set_def)
  with r digest show ?thesis by blast
qed

theorem checksum_precedes_hashing_witness:
  "buildAuditLog example_manager example_now insert_event
     = Inr (Some (built_record (buildAuditLog example_manager example_now insert_event)))
   \<and> (\<exists>entries digest.
        built_record (buildAuditLog example_manager example_now insert_event)
          = JObj (entries @ [(''checksum'', JStr digest)])
        \<and> createChecksum (maxObjectDepth example_manager) (JObj entries) = Inr digest
        \<and> processChange (\<lambda>v. False) ascii_toLowerCase (\<lambda>r. True) example_manager example_now [] insert_event =
            Inr ([] @
              [JObj (map (\<lambda>(key, value).
                       if key = ''oldValue'' \<or> key = ''newValue''
                         then (key, sanitizeAndHashSensitiveData (\<lambda>v. False)
                                      ascii_toLowerCase (sensitiveFields example_manager) value)
                       else (key, value)) entries
                     @ [(''checksum'', JStr digest)])]))"
proof -
  have built: "buildAuditLog example_manager example_now insert_event
     = Inr (Some (built_record (buildAuditLog example_manager example_now insert_event)))"
    by (simp add: buildAuditLog_def Let_def withChecksum_JObj built_record_def
        example_manager_def insert_event_def get_prop_def filterTrackedFields_def shouldTrack_def)
  have "(\<lambda>r. True) (built_record (buildAuditLog example_manager example_now insert_event))"
    by simp
  from checksum_precedes_hashing [OF built this, of "\<lambda>v. False" ascii_toLowerCase "[]"] built
  show ?thesis by blast
qed

subsection \<open>Key order\<close>













section \<open>Sanitizing\<close>

text \<open>
  The values that \<^verbatim>\<open>sanitizeAndHashSensitiveData\<close> takes apart: the objects, arrays and
  instances that \<^verbatim>\<open>ObjectId.isValid\<close> does not accept. Every other value is returned as it
  is.
\<close>

definition composite :: "(jsval \<Rightarrow> bool) \<Rightarrow> jsval \<Rightarrow> bool" where
  "composite isValid obj = (truthy obj \<and> typeof obj = TObject \<and> \<not> isValid obj)"

lemma sanitize_unchanged:
  "\<not> composite isValid obj \<Longrightarrow> sanitizeAndHashSensitiveData isValid lower sens obj = obj"
  by (auto simp: composite_def sanitizeAndHashSensitiveData.simps [of isValid lower sens obj])

lemma sanitize_composite:
  assumes "composite isValid obj"
  shows "sanitizeAndHashSensitiveData isValid lower sens obj =
     JObj (map (\<lambda>(key, value).
                 (key, if is_sensitive lower sens key then JStr (sha256_hex (jsString value))
                       else sanitizeAndHashSensitiveData isValid lower sens value))
               (own_entries obj))"
proof -
  have "typeof v \<noteq> TObject \<Longrightarrow> sanitizeAndHashSensitiveData isValid lower sens v = v" for v
    by (simp add: sanitize_unchanged composite_def)
  with assms show ?thesis
    by (auto simp: composite_def sanitizeAndHashSensitiveData.simps [of isValid lower sens obj])
qed

text \<open>A value is free of arrays when no array occurs in it, at any depth.\<close>

function array_free :: "jsval \<Rightarrow> bool" where
  "array_free (JArr xs) = False"
| "array_free (JObj ps) = list_all (\<lambda>(key, value). array_free value) ps"
| "array_free (JInst s j ps) = list_all (\<lambda>(key, value). array_free value) ps"
| "array_free JUndefined = True"
| "array_free JNull = True"
| "array_free (JBool b) = True"
| "array_free (JNum n) = True"
| "array_free (JStr s) = True"
  by pat_completeness auto
termination
  by (relation "measure size") (auto dest: size_entry_value)

lemma array_free_not_composite:
  "\<not> truthy v \<or> typeof v \<noteq> TObject \<Longrightarrow> array_free v"
  by (cases v) auto

lemma array_free_sanitize:
  assumes "\<And>w. isValid w \<Longrightarrow> array_free w"
  shows "array_free (sanitizeAndHashSensitiveData isValid lower sens v)"
  using assms
proof (induction isValid lower sens v rule: sanitizeAndHashSensitiveData.induct)
  case (1 isValid lower sens obj)
  show ?case
  proof (cases "composite isValid obj")
    case False
    then have "array_free obj"
      using "1.prems" array_free_not_composite by (auto simp: composite_def)
    with False show ?thesis by (simp add: sanitize_unchanged)
  next
    case True
    have "array_free (if is_sensitive lower sens k then JStr (sha256_hex (jsString v))
                      else sanitizeAndHashSensitiveData isValid lower sens v)"
      if "(k, v) \<in> set (own_entries obj)" for k v
    proof (cases "is_sensitive lower sens k")
      case True
      then show ?thesis by simp
    next
      case notsens: False
      show ?thesis
      proof (cases "typeof v = TObject")
        case True
        with "1.IH" [of "(k, v)" k v] that notsens \<open>composite isValid obj\<close> "1.prems"
        show ?thesis by (simp add: composite_def)
      next
        case False
        then have "sanitizeAndHashSensitiveData isValid lower sens v = v"
          by (simp add: sanitize_unchanged composite_def)
        with False notsens show ?thesis by (simp add: array_free_not_composite)
      qed
    qed
    with True show ?thesis
      by (auto simp: sanitize_composite list_all_iff)
  qed
qed

text \<open>
  An array that \<open>isValid\<close> does not accept is not returned as an array: the result is a
  plain object whose keys are the indices of the array as strings, each element hashed when
  its index matches a sensitive matcher and sanitized otherwise. When the values that
  \<open>isValid\<close> accepts, which are returned as they are, contain no array, no array is left
  anywhere in a sanitized value.
\<close>

lemma sanitize_array_becomes_object:
  "(\<not> isValid (JArr xs) \<longrightarrow>
      sanitizeAndHashSensitiveData isValid lower sens (JArr xs) =
        JObj (map (\<lambda>(key, value).
                    (key, if is_sensitive lower sens key then JStr (sha256_hex (jsString value))
                          else sanitizeAndHashSensitiveData isValid lower sens value))
                  (zip (index_keys (length xs)) xs))
      \<and> map fst (own_entries (sanitizeAndHashSensitiveData isValid lower sens (JArr xs)))
          = index_keys (length xs))
   \<and> ((\<forall>w. isValid w \<longrightarrow> array_free w) \<longrightarrow>
        array_free (sanitizeAndHashSensitiveData isValid lower sens v))"
proof (intro conjI impI)
  assume "\<not> isValid (JArr xs)"
  then have c: "composite isValid (JArr xs)" by (simp add: composite_def)
  show eq: "sanitizeAndHashSensitiveData isValid lower sens (JArr xs) =
        JObj (map (\<lambda>(key, value).
                    (key, if is_sensitive lower sens key then JStr (sha256_hex (jsString value))
                          else sanitizeAndHashSensitiveData isValid lower sens value))
                  (zip (index_keys (length xs)) xs))"
    using sanitize_composite [OF c] by simp
  show "map fst (own_entries (sanitizeAndHashSensitiveData isValid lower sens (JArr xs)))
          = index_keys (length xs)"
    by (simp add: eq index_keys_def comp_def case_prod_unfold)
next
  assume "\<forall>w. isValid w \<longrightarrow> array_free w"
  then show "array_free (sanitizeAndHashSensitiveData isValid lower sens v)"
    by (simp add: array_free_sanitize)
qed

subsection \<open>Sensitive keys\<close>

text \<open>
  \<open>contains_ci lower key matcher\<close>: the key contains the matcher as a substring, letter
  case ignored. \<open>lookup_path v ks\<close> is the value found in \<open>v\<close> under the keys \<open>ks\<close>, outermost
  first. \<open>descend isValid lower sens v ks\<close> is that value when every value on the way is taken
  apart by \<^verbatim>\<open>sanitizeAndHashSensitiveData\<close> and no key of \<open>ks\<close> is sensitive.
\<close>

definition contains_ci :: "(string \<Rightarrow> string) \<Rightarrow> string \<Rightarrow> string \<Rightarrow> bool" where
  "contains_ci lower key matcher = sublist (lower matcher) (lower key)"

fun lookup_path :: "jsval \<Rightarrow> string list \<Rightarrow> jsval option" where
  "lookup_path v [] = Some v"
| "lookup_path v (k # ks) =
     (case map_of (own_entries v) k of None \<Rightarrow> None | Some x \<Rightarrow> lookup_path x ks)"

fun descend ::
  "(jsval \<Rightarrow> bool) \<Rightarrow> (string \<Rightarrow> string) \<Rightarrow> string list \<Rightarrow> jsval \<Rightarrow> string list
     \<Rightarrow> jsval option" where
  "descend isValid lower sens v [] = Some v"
| "descend isValid lower sens v (k # ks) =
     (if composite isValid v \<and> \<not> is_sensitive lower sens k
      then (case map_of (own_entries v) k of
              None \<Rightarrow> None
            | Some x \<Rightarrow> descend isValid lower sens x ks)
      else None)"

lemma is_sensitive_ci:
  assumes "\<forall>m\<in>set sens. lower m = m"
  shows "is_sensitive lower sens key \<longleftrightarrow> (\<exists>m\<in>set sens. contains_ci lower key m)"
  using assms by (auto simp: is_sensitive_def list_ex_iff str_includes_def contains_ci_def)

lemma map_of_map_entries:
  "map_of (map (\<lambda>(k, v). (k, f k v)) ps) key = map_option (f key) (map_of ps key)"
  by (induction ps) auto

lemma lookup_path_append:
  "lookup_path v (ks @ ks') =
     (case lookup_path v ks of None \<Rightarrow> None | Some y \<Rightarrow> lookup_path y ks')"
  by (induction ks arbitrary: v) (auto split: option.splits)

lemma lookup_sanitize_descend:
  "descend isValid lower sens v ks = Some y \<Longrightarrow>
   lookup_path (sanitizeAndHashSensitiveData isValid lower sens v) ks
     = Some (sanitizeAndHashSensitiveData isValid lower sens y)"
proof (induction ks arbitrary: v)
  case Nil
  then show ?case by simp
next
  case (Cons k ks)
  from Cons.prems have c: "composite isValid v" and ns: "\<not> is_sensitive lower sens k"
    by (auto split: if_splits)
  with Cons.prems obtain x where x: "map_of (own_entries v) k = Some x"
    and d: "descend isValid lower sens x ks = Some y"
    by (auto split: option.splits)
  from c ns x have "map_of (own_entries (sanitizeAndHashSensitiveData isValid lower sens v)) k
     = Some (sanitizeAndHashSensitiveData isValid lower sens x)"
    by (simp add: sanitize_composite map_of_map_entries)
  with Cons.IH [OF d] show ?case by simp
qed

lemma sensitive_entry_hashed:
  assumes "composite isValid obj" and "map_of (own_entries obj) k = Some x"
    and "is_sensitive lower sens k"
  shows "map_of (own_entries (sanitizeAndHashSensitiveData isValid lower sens obj)) k
     = Some (JStr (sha256_hex (jsString x)))"
  using assms by (simp add: sanitize_composite map_of_map_entries)

text \<open>
  For every predicate \<open>isValid\<close> and every case mapping \<open>lower\<close>: a value that \<open>isValid\<close>
  does not accept is rebuilt entry by entry, each value under a sensitive key replaced by a
  digest and every other value sanitized in turn; a value that \<open>isValid\<close> accepts is
  returned unchanged; and with lowercase matchers, a value whose key contains a matcher,
  letter case ignored, and that is reached along keys that are not sensitive and through
  values that \<open>isValid\<close> does not accept, is replaced by the SHA-256 digest of its string
  form, 64 hexadecimal characters.
\<close>

lemma sanitize_hashes_sensitive:
  "(composite isValid obj \<longrightarrow>
      sanitizeAndHashSensitiveData isValid lower sens obj =
        JObj (map (\<lambda>(key, value).
                    (key, if is_sensitive lower sens key then JStr (sha256_hex (jsString value))
                          else sanitizeAndHashSensitiveData isValid lower sens value))
                  (own_entries obj)))
   \<and> (isValid obj \<longrightarrow> sanitizeAndHashSensitiveData isValid lower sens obj = obj)
   \<and> ((\<forall>m\<in>set sens. lower m = m)
        \<longrightarrow> descend isValid lower sens v ks = Some parent
        \<longrightarrow> composite isValid parent
        \<longrightarrow> map_of (own_entries parent) k = Some x
        \<longrightarrow> (\<exists>m\<in>set sens. contains_ci lower k m)
        \<longrightarrow> lookup_path (sanitizeAndHashSensitiveData isValid lower sens v) (ks @ [k])
              = Some (JStr (sha256_hex (jsString x)))
            \<and> length (sha256_hex (jsString x)) = 64)"
proof (intro conjI impI)
  assume "composite isValid obj"
  then show "sanitizeAndHashSensitiveData isValid lower sens obj =
        JObj (map (\<lambda>(key, value).
                    (key, if is_sensitive lower sens key then JStr (sha256_hex (jsString value))
                          else sanitizeAndHashSensitiveData isValid lower sens value))
                  (own_entries obj))"
    by (rule sanitize_composite)
next
  assume "isValid obj"
  then show "sanitizeAndHashSensitiveData isValid lower sens obj = obj"
    by (simp add: sanitize_unchanged composite_def)
next
  assume lower: "\<forall>m\<in>set sens. lower m = m"
    and d: "descend isValid lower sens v ks = Some parent"
    and c: "composite isValid parent"
    and x: "map_of (own_entries parent) k = Some x"
    and m: "\<exists>m\<in>set sens. contains_ci lower k m"
  from lower m have "is_sensitive lower sens k" by (simp add: is_sensitive_ci)
  with c x have "map_of (own_entries (sanitizeAndHashSensitiveData isValid lower sens parent)) k
     = Some (JStr (sha256_hex (jsString x)))"
    by (rule sensitive_entry_hashed)
  with lookup_sanitize_descend [OF d]
  show "lookup_path (sanitizeAndHashSensitiveData isValid lower sens v) (ks @ [k])
              = Some (JStr (sha256_hex (jsString x)))"
    by (simp add: lookup_path_append)
next
  show "length (sha256_hex (jsString x)) = 64" by (rule length_sha256_hex)
qed

subsection \<open>Document identifiers\<close>

text \<open>
  \<^verbatim>\<open>ObjectId.isValid\<close> of the database driver tells whether an \<^verbatim>\<open>ObjectId\<close> can be made
  of a value. It accepts a number, a string of 24 hexadecimal digits, an \<^verbatim>\<open>ObjectId\<close>
  (an instance whose string form and JSON form are its 24 hexadecimal digits), and also
  every object that has a property \<^verbatim>\<open>id\<close> holding a string of 24 hexadecimal digits,
  whatever else the object holds. (Earlier versions of the driver accept a string of 12
  characters too, as a value and as the property \<^verbatim>\<open>id\<close>.)
\<close>

definition is_hex_digit :: "char \<Rightarrow> bool" where
  "is_hex_digit c = (c \<in> set ''0123456789abcdefABCDEF'')"

definition is_hex24 :: "string \<Rightarrow> bool" where
  "is_hex24 s = (length s = 24 \<and> list_all is_hex_digit s)"

definition id_property_valid :: "(string \<times> jsval) list \<Rightarrow> bool" where
  "id_property_valid ps = (case map_of ps ''id'' of Some (JStr s) \<Rightarrow> is_hex24 s | _ \<Rightarrow> False)"

fun ObjectId_isValid :: "jsval \<Rightarrow> bool" where
  "ObjectId_isValid JUndefined = False"
| "ObjectId_isValid JNull = False"
| "ObjectId_isValid (JBool b) = False"
| "ObjectId_isValid (JNum n) = True"
| "ObjectId_isValid (JStr s) = is_hex24 s"
| "ObjectId_isValid (JArr xs) = False"
| "ObjectId_isValid (JObj ps) = id_property_valid ps"
| "ObjectId_isValid (JInst s j ps) = ((is_hex24 s \<and> j = Some s) \<or> id_property_valid ps)"

text \<open>
  C3. The claim: on every value, every leaf whose key contains a sensitive matcher is
  replaced by a digest. The code returns a value unchanged when \<^verbatim>\<open>ObjectId.isValid\<close>
  accepts it, and that test accepts more than document identifiers: the document
  \<^verbatim>\<open>{id: '0123456789abcdef01234567', password: 'p1'}\<close> is returned as it is, the password
  in clear, whatever the case mapping.
\<close>

theorem sanitize_keeps_password_of_id_document:
  "sanitizeAndHashSensitiveData ObjectId_isValid lower [''password'']
     (JObj [(''id'', JStr ''0123456789abcdef01234567''), (''password'', JStr ''p1'')])
   = JObj [(''id'', JStr ''0123456789abcdef01234567''), (''password'', JStr ''p1'')]"
proof -
  have "is_hex24 ''0123456789abcdef01234567''"
    by code_simp
  then have "ObjectId_isValid
     (JObj [(''id'', JStr ''0123456789abcdef01234567''), (''password'', JStr ''p1'')])"
    by (simp add: id_property_valid_def)
  then show ?thesis
    by (simp add: sanitizeAndHashSensitiveData.simps
        [of ObjectId_isValid lower "[''password'']"
            "JObj [(''id'', JStr ''0123456789abcdef01234567''), (''password'', JStr ''p1'')]"])
qed

text \<open>
  C10. The claim: an array is never returned as an array, so no array is left anywhere in
  the sanitized output. The array itself does become an object keyed by its indices, but an
  element that \<^verbatim>\<open>ObjectId.isValid\<close> accepts is returned as it is: in
  \<^verbatim>\<open>[{id: '0123456789abcdef01234567', tags: ['x']}, ['y']]\<close> the array \<^verbatim>\<open>tags\<close> stays an
  array, while \<^verbatim>\<open>['y']\<close> becomes \<^verbatim>\<open>{0: 'y'}\<close>.
\<close>

theorem sanitize_keeps_array_of_id_document:
  "sanitizeAndHashSensitiveData ObjectId_isValid ascii_toLowerCase [''password'']
     (JArr [JObj [(''id'', JStr ''0123456789abcdef01234567''), (''tags'', JArr [JStr ''x''])],
            JArr [JStr ''y'']])
   = JObj [(''0'', JObj [(''id'', JStr ''0123456789abcdef01234567''),
                         (''tags'', JArr [JStr ''x''])]),
           (''1'', JObj [(''0'', JStr ''y'')])]"
  by code_simp

section \<open>Connecting\<close>

text \<open>
  What \<^verbatim>\<open>connectDB\<close> does when \<open>n\<close> attempts fail and one more is made: the attempts from
  the \<open>k\<close>-th on, with the delay after each failed one.
\<close>

fun retry_trace :: "int \<Rightarrow> nat \<Rightarrow> nat \<Rightarrow> effect list" where
  "retry_trace delay k 0 = [Connect k]"
| "retry_trace delay k (Suc n) = Connect k # Wait delay # retry_trace delay (Suc k) n"

lemma connectDB_success_after:
  assumes "\<forall>j<n. \<not> connects (k + j)" and "connects (k + n)"
    and "n = 0 \<or> reconnectAttempts m + int n < maxReconnectAttempts m"
  shows "connectDB connects k m =
     (Inr (), m\<lparr>reconnectAttempts := 0\<rparr>, retry_trace (reconnectDelay m) k n)"
  using assms
proof (induction n arbitrary: k m)
  case 0
  then show ?case by (simp add: connectDB.simps [of connects k m])
next
  case (Suc n)
  let ?m' = "m\<lparr>reconnectAttempts := reconnectAttempts m + 1\<rparr>"
  from Suc.prems have nk: "\<not> connects k" by (metis add.right_neutral zero_less_Suc)
  from Suc.prems have later: "\<forall>j<n. \<not> connects (Suc k + j)" and ok: "connects (Suc k + n)"
    by (auto simp: less_Suc_eq_0_disj)
  from Suc.prems have bound: "reconnectAttempts m + int (Suc n) < maxReconnectAttempts m"
    by simp
  then have more: "n = 0 \<or> reconnectAttempts ?m' + int n < maxReconnectAttempts ?m'"
    by simp
  from bound have notmax: "\<not> maxReconnectAttempts ?m' \<le> reconnectAttempts ?m'" by simp
  from Suc.IH [OF later ok more] nk notmax show ?case
    by (simp add: connectDB.simps [of connects k m] Let_def)
qed

lemma connectDB_exhausted:
  assumes "\<forall>j<n. \<not> connects (k + j)" and "0 < n"
    and "n = 1 \<or> reconnectAttempts m + int n - 1 < maxReconnectAttempts m"
    and "maxReconnectAttempts m \<le> reconnectAttempts m + int n"
  shows "connectDB connects k m =
     (Inl MaxReconnectAttemptsReached,
      m\<lparr>reconnectAttempts := reconnectAttempts m + int n\<rparr>,
      retry_trace (reconnectDelay m) k (n - 1))"
  using assms
proof (induction n arbitrary: k m)
  case 0
  then show ?case by simp
next
  case (Suc n)
  let ?m' = "m\<lparr>reconnectAttempts := reconnectAttempts m + 1\<rparr>"
  from Suc.prems have nk: "\<not> connects k" by (metis add.right_neutral zero_less_Suc)
  show ?case
  proof (cases n)
    case 0
    with Suc.prems nk show ?thesis
      by (simp add: connectDB.simps [of connects k m] Let_def)
  next
    case (Suc n')
    from Suc.prems have later: "\<forall>j<n. \<not> connects (Suc k + j)"
      by (auto simp: less_Suc_eq_0_disj)
    from Suc.prems Suc have notmax: "\<not> maxReconnectAttempts ?m' \<le> reconnectAttempts ?m'"
      by simp
    from Suc.prems Suc
    have b1: "n = 1 \<or> reconnectAttempts ?m' + int n - 1 < maxReconnectAttempts ?m'"
      and b2: "maxReconnectAttempts ?m' \<le> reconnectAttempts ?m' + int n"
      by simp_all
    from Suc have "0 < n" by simp
    from Suc.IH [OF later this b1 b2] nk notmax Suc show ?thesis
      by (simp add: connectDB.simps [of connects k m] Let_def)
  qed
qed

lemma Connect_only: "StartChangeStream \<notin> set (retry_trace delay k n)"
  by (induction n arbitrary: k) auto

text \<open>
  C8. From a new manager, whose retry counter is 0, with a maximum of at least one attempt:
  \<^verbatim>\<open>connectDB\<close> waits the configured delay after a failed attempt and tries again, the
  counter one higher; it raises the fatal error exactly when the first
  \<^verbatim>\<open>maxReconnectAttempts\<close> attempts all fail, and \<^verbatim>\<open>initialize\<close> then raises it too and
  never starts the change stream; an attempt that succeeds sets the counter to 0, and
  \<^verbatim>\<open>initialize\<close> goes on to start the change stream.
\<close>

theorem connectDB_retries:
  assumes "reconnectAttempts m = 0" and "1 \<le> maxReconnectAttempts m"
  shows "((\<forall>j < nat (maxReconnectAttempts m). \<not> connects j) \<longrightarrow>
            connectDB connects 0 m =
              (Inl MaxReconnectAttemptsReached,
               m\<lparr>reconnectAttempts := maxReconnectAttempts m\<rparr>,
               retry_trace (reconnectDelay m) 0 (nat (maxReconnectAttempts m) - 1))
          \<and> fst (initialize connects m) = Inl MaxReconnectAttemptsReached
          \<and> StartChangeStream \<notin> set (snd (snd (initialize connects m))))
       \<and> (\<forall>n < nat (maxReconnectAttempts m).
            (\<forall>j<n. \<not> connects j) \<and> connects n \<longrightarrow>
            connectDB connects 0 m =
              (Inr (), m\<lparr>reconnectAttempts := 0\<rparr>, retry_trace (reconnectDelay m) 0 n)
          \<and> fst (initialize connects m) = Inr ()
          \<and> StartChangeStream \<in> set (snd (snd (initialize connects m))))
       \<and> (fst (connectDB connects 0 m) = Inl MaxReconnectAttemptsReached
            \<longleftrightarrow> (\<forall>j < nat (maxReconnectAttempts m). \<not> connects j))"
proof -
  let ?N = "nat (maxReconnectAttempts m)"
  have fail: "connectDB connects 0 m =
        (Inl MaxReconnectAttemptsReached,
         m\<lparr>reconnectAttempts := maxReconnectAttempts m\<rparr>,
         retry_trace (reconnectDelay m) 0 (?N - 1))"
    if "\<forall>j < ?N. \<not> connects j"
  proof -
    from that have a: "\<forall>j < ?N. \<not> connects (0 + j)" by simp
    from assms have b: "0 < ?N" by simp
    from assms have c: "?N = 1 \<or> reconnectAttempts m + int ?N - 1 < maxReconnectAttempts m"
      and d: "maxReconnectAttempts m \<le> reconnectAttempts m + int ?N"
      by simp_all
    from connectDB_exhausted [OF a b c d] assms show ?thesis by simp
  qed
  have succeed: "connectDB connects 0 m =
        (Inr (), m\<lparr>reconnectAttempts := 0\<rparr>, retry_trace (reconnectDelay m) 0 n)"
    if "n < ?N" "\<forall>j<n. \<not> connects j" "connects n" for n
  proof -
    from that have a: "\<forall>j<n. \<not> connects (0 + j)" and b: "connects (0 + n)" by simp_all
    from that assms have c: "n = 0 \<or> reconnectAttempts m + int n < maxReconnectAttempts m"
      by auto
    from connectDB_success_after [OF a b c] show ?thesis .
  qed
  have iff: "fst (connectDB connects 0 m) = Inl MaxReconnectAttemptsReached
            \<longleftrightarrow> (\<forall>j < ?N. \<not> connects j)"
  proof
    assume err: "fst (connectDB connects 0 m) = Inl MaxReconnectAttemptsReached"
    show "\<forall>j < ?N. \<not> connects j"
    proof (rule ccontr)
      assume "\<not> (\<forall>j < ?N. \<not> connects j)"
      then have ex: "\<exists>j. j < ?N \<and> connects j" by blast
      define n where "n = (LEAST j. j < ?N \<and> connects j)"
      from ex have n: "n < ?N \<and> connects n" unfolding n_def by (rule LeastI_ex)
      have "\<forall>j<n. \<not> connects j"
      proof (intro allI impI)
        fix j assume "j < n"
        with n have "j < ?N" by simp
        moreover from \<open>j < n\<close> have "\<not> (j < ?N \<and> connects j)"
          unfolding n_def by (rule not_less_Least)
        ultimately show "\<not> connects j" by simp
      qed
      with succeed [of n] n err show False by simp
    qed
  next
    assume "\<forall>j < ?N. \<not> connects j"
    with fail show "fst (connectDB connects 0 m) = Inl MaxReconnectAttemptsReached" by simp
  qed
  show ?thesis
  proof (intro conjI allI impI)
    assume a: "\<forall>j < ?N. \<not> connects j"
    from fail [OF a] show "connectDB connects 0 m =
        (Inl MaxReconnectAttemptsReached,
         m\<lparr>reconnectAttempts := maxReconnectAttempts m\<rparr>,
         retry_trace (reconnectDelay m) 0 (?N - 1))" .
    from fail [OF a] show "fst (initialize connects m) = Inl MaxReconnectAttemptsReached"
      by (simp add: initialize_def)
    from fail [OF a] show "StartChangeStream \<notin> set (snd (snd (initialize connects m)))"
      by (simp add: initialize_def Connect_only)
  next
    fix n assume "n < ?N" and b: "(\<forall>j<n. \<not> connects j) \<and> connects n"
    then have s: "connectDB connects 0 m =
        (Inr (), m\<lparr>reconnectAttempts := 0\<rparr>, retry_trace (reconnectDelay m) 0 n)"
      using succeed [of n] by simp
    then show "connectDB connects 0 m =
        (Inr (), m\<lparr>reconnectAttempts := 0\<rparr>, retry_trace (reconnectDelay m) 0 n)" .
    from s show "fst (initialize connects m) = Inr ()"
      by (simp add: initialize_def)
    from s show "StartChangeStream \<in> set (snd (snd (initialize connects m)))"
      by (simp add: initialize_def)
  next
    from iff show "fst (connectDB connects 0 m) = Inl MaxReconnectAttemptsReached
            \<longleftrightarrow> (\<forall>j < ?N. \<not> connects j)" .
  qed
qed

text \<open>A new manager with at most three attempts.\<close>

definition fresh_manager :: manager where
  "fresh_manager =
     \<lparr>trackingConfig = [], sensitiveFields = [],
      maxReconnectAttempts = 3, reconnectDelay = 5000, maxObjectDepth = 10,
      healthCheckInterval = 30000, reconnectAttempts = 0\<rparr>"

theorem connectDB_retries_witness:
  "reconnectAttempts fresh_manager = 0 \<and> 1 \<le> maxReconnectAttempts fresh_manager
   \<and> connectDB (\<lambda>k. False) 0 fresh_manager =
       (Inl MaxReconnectAttemptsReached, fresh_manager\<lparr>reconnectAttempts := 3\<rparr>,
        [Connect 0, Wait 5000, Connect 1, Wait 5000, Connect 2])
   \<and> initialize (\<lambda>k. False) fresh_manager =
       (Inl MaxReconnectAttemptsReached, fresh_manager\<lparr>reconnectAttempts := 3\<rparr>,
        [Connect 0, Wait 5000, Connect 1, Wait 5000, Connect 2])
   \<and> initialize (\<lambda>k. k = 2) fresh_manager =
       (Inr (), fresh_manager\<lparr>reconnectAttempts := 0\<rparr>,
        [Connect 0, Wait 5000, Connect 1, Wait 5000, Connect 2,
         InitializeAuditLogModel, StartChangeStream, SetupEventListeners])"
proof -
  have a: "reconnectAttempts fresh_manager = 0" and b: "1 \<le> maxReconnectAttempts fresh_manager"
    by (simp_all add: fresh_manager_def)
  have n: "nat (maxReconnectAttempts fresh_manager) = 3" by (simp add: fresh_manager_def)
  have d: "reconnectDelay fresh_manager = 5000" "maxReconnectAttempts fresh_manager = 3"
    by (simp_all add: fresh_manager_def)
  have t: "retry_trace 5000 0 2 = [Connect 0, Wait 5000, Connect 1, Wait 5000, Connect 2]"
    by (simp add: numeral_2_eq_2)
  from connectDB_retries [OF a b, of "\<lambda>k. False"]
  have f: "connectDB (\<lambda>k. False) 0 fresh_manager =
       (Inl MaxReconnectAttemptsReached, fresh_manager\<lparr>reconnectAttempts := 3\<rparr>,
        [Connect 0, Wait 5000, Connect 1, Wait 5000, Connect 2])"
    by (simp add: n d t)
  from connectDB_retries [OF a b, of "\<lambda>k. k = 2"]
  have "\<forall>n<3. (\<forall>j<n. j \<noteq> 2) \<and> n = 2 \<longrightarrow>
      connectDB (\<lambda>k. k = 2) 0 fresh_manager =
        (Inr (), fresh_manager\<lparr>reconnectAttempts := 0\<rparr>, retry_trace 5000 0 n)"
    by (simp add: n d)
  then have s: "connectDB (\<lambda>k. k = 2) 0 fresh_manager =
        (Inr (), fresh_manager\<lparr>reconnectAttempts := 0\<rparr>,
         [Connect 0, Wait 5000, Connect 1, Wait 5000, Connect 2])"
    by (simp add: t)
  from a b f s show ?thesis by (simp add: initialize_def)
qed

end
